theory Spec2Isabelle
  imports Complex_Main "HOL-Library.Sublist" "HOL-Library.Char_ord" "HOL-Library.List_Lexorder"
begin

section \<open>Values\<close>

text \<open>
  The Python values that occur as field values, keyword arguments and defaults of
  the settings classes of \<^verbatim>\<open>prefect/utilities/settings.py\<close>.
  \<^item> \<open>VFloat\<close> holds a Python float; a finite float is the real number it denotes.
  \<^item> \<open>VPath p\<close> is a \<^verbatim>\<open>pathlib.Path\<close> whose \<^verbatim>\<open>str()\<close> is \<open>p\<close>.
  \<^item> \<open>VSecret s\<close> is a \<^verbatim>\<open>SecretStr\<close> wrapping the raw string \<open>s\<close>.
  \<^item> \<open>VTimedelta n\<close> is a \<^verbatim>\<open>timedelta\<close> of \<open>n\<close> microseconds.
  \<^item> \<open>VNotSet\<close> is an instance of \<^verbatim>\<open>NotSetType\<close>.
  \<^item> \<open>VModel c fs\<close> is an instance of the settings class named \<open>c\<close>, with its
    field values in declaration order.
\<close>

datatype pyfloat = Finite real | PosInf | NegInf | NaN

datatype pyval =
    VNone
  | VBool bool
  | VInt int
  | VFloat pyfloat
  | VStr string
  | VPath string
  | VSecret string
  | VTimedelta int
  | VNotSet
  | VModel string "(string \<times> pyval) list"

type_synonym kwargs = "(string \<times> pyval) list"

text \<open>The declared type of a field, as its annotation gives it.\<close>

datatype ftype =
    TBool | TInt | TFloat | TStr | TPath | TSecretStr | TTimedelta
  | TOptional ftype
  | TModel string

section \<open>The unset sentinel and \<open>drop_unset\<close>\<close>

text \<open>
  \<^verbatim>\<open>
  class NotSetType:
      def __eq__(self, o: object) -> bool:
          return isinstance(o, NotSetType)

  NOTSET = NotSetType()

  def drop_unset(**kwargs: Any) -> Dict[str, Any]:
      return {key: value for key, value in kwargs.items() if value != NOTSET}
  \<close>
  None of the other values defines a comparison that accepts a \<^verbatim>\<open>NotSetType\<close>, so
  \<^verbatim>\<open>value != NOTSET\<close> is decided by the reflected \<^verbatim>\<open>NotSetType.__eq__\<close>.
  A keyword dictionary is an association list in insertion order.
\<close>

fun NotSetType_eq :: "pyval \<Rightarrow> bool" where
  "NotSetType_eq VNotSet = True"
| "NotSetType_eq _ = False"

definition ne_NOTSET :: "pyval \<Rightarrow> bool" where
  "ne_NOTSET v = (\<not> NotSetType_eq v)"

definition drop_unset :: "kwargs \<Rightarrow> kwargs" where
  "drop_unset kwargs = [(key, val) \<leftarrow> kwargs. ne_NOTSET val]"

section \<open>Strings, paths and the environment\<close>

text \<open>
  \<^verbatim>\<open>str.lower()\<close> and \<^verbatim>\<open>str.upper()\<close> on ASCII text; a string is a list of
  bytes, and bytes outside \<open>A-Z\<close>/\<open>a-z\<close> are left alone.
\<close>

definition lower_char :: "char \<Rightarrow> char" where
  "lower_char c =
     (let n = (of_char c :: nat) in if 65 \<le> n \<and> n \<le> 90 then char_of (n + 32) else c)"

definition upper_char :: "char \<Rightarrow> char" where
  "upper_char c =
     (let n = (of_char c :: nat) in if 97 \<le> n \<and> n \<le> 122 then char_of (n - 32) else c)"

definition lower :: "string \<Rightarrow> string" where
  "lower s = map lower_char s"

definition upper :: "string \<Rightarrow> string" where
  "upper s = map upper_char s"

text \<open>
  \<^verbatim>\<open>Path(s)\<close> on a POSIX system: the string is cut at \<open>/\<close>, empty and \<open>.\<close>
  components are dropped, exactly two leading slashes are kept as the root \<open>//\<close>, and
  \<^verbatim>\<open>str()\<close> joins the parts again (\<open>.\<close> for the empty path). A leading \<open>~\<close> is
  an ordinary component: only \<^verbatim>\<open>expanduser()\<close> replaces it.
\<close>

fun split_slash :: "string \<Rightarrow> string list" where
  "split_slash [] = [[]]"
| "split_slash (c # cs) =
     (if c = CHR ''/'' then [] # split_slash cs
      else (case split_slash cs of p # ps \<Rightarrow> (c # p) # ps | [] \<Rightarrow> [[c]]))"

fun join_slash :: "string list \<Rightarrow> string" where
  "join_slash [] = []"
| "join_slash [p] = p"
| "join_slash (p # q # ps) = p @ ''/'' @ join_slash (q # ps)"

definition path_root :: "string \<Rightarrow> string" where
  "path_root s =
     (if take 3 s = ''///'' then ''/''
      else if take 2 s = ''//'' then ''//''
      else if take 1 s = ''/'' then ''/''
      else [])"

definition path_parts :: "string \<Rightarrow> string list" where
  "path_parts s = filter (\<lambda>p. p \<noteq> [] \<and> p \<noteq> ''.'') (split_slash s)"

definition render_path :: "string \<Rightarrow> string list \<Rightarrow> string" where
  "render_path rt parts =
     (if rt = [] \<and> parts = [] then ''.'' else rt @ join_slash parts)"

definition Path :: "string \<Rightarrow> string" where
  "Path s = render_path (path_root s) (path_parts s)"

text \<open>
  \<^verbatim>\<open>Path(s).expanduser()\<close>: when the path is relative and its first component is
  \<open>~\<close>, the result has the root and the components of the home directory, followed by
  the remaining components of the path. The home directory \<open>homedir\<close> is a parameter:
  the string that \<^verbatim>\<open>os.path.expanduser("~")\<close> returns for the process (taken from
  \<^verbatim>\<open>HOME\<close> or from the password database). When that string itself begins with
  \<open>~\<close>, \<^verbatim>\<open>expanduser()\<close> raises \<^verbatim>\<open>RuntimeError\<close>; this case is the guard
  of \<open>load_module\<close> below. A component \<open>~name\<close> of another user does not occur in the
  source.
\<close>

definition expanduser :: "string \<Rightarrow> string \<Rightarrow> string" where
  "expanduser homedir s =
     (if path_root s = [] \<and> take 1 (path_parts s) = [''~'']
      then render_path (path_root homedir) (path_parts homedir @ drop 1 (path_parts s))
      else Path s)"

text \<open>
  \<^verbatim>\<open>os.environ\<close> is the list of its items in iteration order. The settings
  classes keep pydantic's \<^verbatim>\<open>case_sensitive = False\<close>: the variables are read
  through \<^verbatim>\<open>{k.lower(): v for k, v in os.environ.items()}\<close>, where a later item
  replaces an earlier one with the same lowered name.
\<close>

type_synonym environ = "(string \<times> string) list"

definition env_vars :: "environ \<Rightarrow> string \<Rightarrow> string option" where
  "env_vars env = map_of (rev (map (\<lambda>(k, v). (lower k, v)) env))"

section \<open>Field validation\<close>

text \<open>
  The settings classes derive from pydantic's \<^verbatim>\<open>BaseSettings\<close>. What follows
  renders the part of pydantic (version 1) that the declarations of the source rely
  on: the validators of the annotated types, the resolution of a field from keyword
  arguments, environment and default, and the \<^verbatim>\<open>Config\<close> options
  \<^verbatim>\<open>env_prefix\<close> and \<^verbatim>\<open>frozen\<close>.

  The conversions that pydantic leaves to Python's built-ins (\<^verbatim>\<open>int()\<close>,
  \<^verbatim>\<open>float()\<close> and \<^verbatim>\<open>str()\<close> of numbers, the parsing of durations, the
  validation of a mapping as a nested model) are a parameter \<open>L\<close>. \<open>L t v\<close> is the
  outcome of converting \<open>v\<close> for the type \<open>t\<close>: the converted value; or a refusal,
  which the validator reports as the validation error of its type; or an exception
  that pydantic does not catch (it catches \<^verbatim>\<open>ValueError\<close>, \<^verbatim>\<open>TypeError\<close>
  and \<^verbatim>\<open>AssertionError\<close>), such as the \<^verbatim>\<open>OverflowError\<close> of
  \<^verbatim>\<open>timedelta(seconds=1e20)\<close>, which then leaves the constructor.
\<close>

datatype conversion = Converted pyval | Refused | Escaped string

type_synonym pylib = "ftype \<Rightarrow> pyval \<Rightarrow> conversion"

text \<open>
  What a validator raises: one of pydantic's validation errors, which the model
  collects, or \<open>Uncaught x\<close>, an exception of class \<open>x\<close> that it does not catch.
\<close>

datatype errkind =
    BoolError | IntegerError | FloatError | StrError | PathError | DurationError
  | DictError | PyTypeError | NoneIsNotAllowedError | ExtraError
  | Uncaught string

fun type_error :: "ftype \<Rightarrow> errkind" where
  "type_error TBool = BoolError"
| "type_error TInt = IntegerError"
| "type_error TFloat = FloatError"
| "type_error TStr = StrError"
| "type_error TPath = PathError"
| "type_error TSecretStr = StrError"
| "type_error TTimedelta = DurationError"
| "type_error (TOptional t) = type_error t"
| "type_error (TModel c) = DictError"

definition builtin :: "pylib \<Rightarrow> ftype \<Rightarrow> pyval \<Rightarrow> errkind + pyval" where
  "builtin L t v =
     (case L t v of
        Converted w \<Rightarrow> Inr w
      | Refused \<Rightarrow> Inl (type_error t)
      | Escaped x \<Rightarrow> Inl (Uncaught x))"

text \<open>A library in which each of these conversions is refused.\<close>

definition no_builtins :: pylib where
  "no_builtins t v = Refused"

text \<open>
  The Python type that an annotation denotes, and a library whose conversions return
  values of the type they convert for.
\<close>

fun has_type :: "ftype \<Rightarrow> pyval \<Rightarrow> bool" where
  "has_type TBool (VBool b) = True"
| "has_type TInt (VInt n) = True"
| "has_type TFloat (VFloat x) = True"
| "has_type TStr (VStr s) = True"
| "has_type TPath (VPath p) = True"
| "has_type TSecretStr (VSecret s) = True"
| "has_type TTimedelta (VTimedelta d) = True"
| "has_type (TOptional t) v = has_type t v"
| "has_type (TModel c) (VModel c' fs) = (c' = c)"
| "has_type _ _ = False"

definition lib_typed :: "pylib \<Rightarrow> bool" where
  "lib_typed L = (\<forall>t v w. L t v = Converted w \<longrightarrow> has_type t w)"

text \<open>
  A string of one to fifteen ASCII digits: \<^verbatim>\<open>int()\<close> and \<^verbatim>\<open>float()\<close> read
  it as the decimal number it spells (exactly, also as a float: it is below \<open>2^53\<close>).
  Every other numeric string is left to the parameter.
\<close>

definition is_digit :: "char \<Rightarrow> bool" where
  "is_digit c = (48 \<le> (of_char c :: nat) \<and> (of_char c :: nat) \<le> 57)"

definition decimal :: "string \<Rightarrow> nat option" where
  "decimal s =
     (if s \<noteq> [] \<and> length s \<le> 15 \<and> list_all is_digit s
      then Some (foldl (\<lambda>a c. 10 * a + (of_char c - 48)) 0 s)
      else None)"

definition BOOL_TRUE :: "string list" where
  "BOOL_TRUE = [''1'', ''on'', ''t'', ''true'', ''y'', ''yes'']"

definition BOOL_FALSE :: "string list" where
  "BOOL_FALSE = [''0'', ''off'', ''f'', ''false'', ''n'', ''no'']"

fun bool_validator :: "pyval \<Rightarrow> errkind + pyval" where
  "bool_validator (VBool b) = Inr (VBool b)"
| "bool_validator (VStr s) =
     (if lower s \<in> set BOOL_TRUE then Inr (VBool True)
      else if lower s \<in> set BOOL_FALSE then Inr (VBool False)
      else Inl BoolError)"
| "bool_validator (VInt n) =
     (if n = 1 then Inr (VBool True) else if n = 0 then Inr (VBool False) else Inl BoolError)"
| "bool_validator (VFloat x) =
     (if x = Finite 1 then Inr (VBool True)
      else if x = Finite 0 then Inr (VBool False)
      else Inl BoolError)"
| "bool_validator _ = Inl BoolError"

fun str_validator :: "pylib \<Rightarrow> pyval \<Rightarrow> errkind + pyval" where
  "str_validator L (VStr s) = Inr (VStr s)"
| "str_validator L (VBool b) = Inr (VStr (if b then ''True'' else ''False''))"
| "str_validator L (VInt n) = builtin L TStr (VInt n)"
| "str_validator L (VFloat x) = builtin L TStr (VFloat x)"
| "str_validator L _ = Inl StrError"

fun int_validator :: "pylib \<Rightarrow> pyval \<Rightarrow> errkind + pyval" where
  "int_validator L (VInt n) = Inr (VInt n)"
| "int_validator L (VBool b) = Inr (VInt (if b then 1 else 0))"
| "int_validator L (VStr s) =
     (case decimal s of Some n \<Rightarrow> Inr (VInt (int n)) | None \<Rightarrow> builtin L TInt (VStr s))"
| "int_validator L (VFloat x) = builtin L TInt (VFloat x)"
| "int_validator L _ = Inl IntegerError"

fun float_validator :: "pylib \<Rightarrow> pyval \<Rightarrow> errkind + pyval" where
  "float_validator L (VFloat x) = Inr (VFloat x)"
| "float_validator L (VInt n) =
     (if \<bar>n\<bar> \<le> 2 ^ 53 then Inr (VFloat (Finite (of_int n)))
      else if \<bar>n\<bar> \<ge> 2 ^ 1024 - 2 ^ 970 then Inl (Uncaught ''OverflowError'')
      else builtin L TFloat (VInt n))"
| "float_validator L (VBool b) = Inr (VFloat (Finite (if b then 1 else 0)))"
| "float_validator L (VStr s) =
     (case decimal s of
        Some n \<Rightarrow> Inr (VFloat (Finite (of_nat n)))
      | None \<Rightarrow> builtin L TFloat (VStr s))"
| "float_validator L _ = Inl FloatError"

fun path_validator :: "pyval \<Rightarrow> errkind + pyval" where
  "path_validator (VPath p) = Inr (VPath p)"
| "path_validator (VStr s) = Inr (VPath (Path s))"
| "path_validator _ = Inl PathError"

fun SecretStr_validate :: "pylib \<Rightarrow> pyval \<Rightarrow> errkind + pyval" where
  "SecretStr_validate L (VSecret s) = Inr (VSecret s)"
| "SecretStr_validate L v =
     (case str_validator L v of
        Inl k \<Rightarrow> Inl k
      | Inr (VStr s) \<Rightarrow> Inr (VSecret s)
      | Inr _ \<Rightarrow> Inl StrError)"

fun parse_duration :: "pylib \<Rightarrow> pyval \<Rightarrow> errkind + pyval" where
  "parse_duration L (VTimedelta d) = Inr (VTimedelta d)"
| "parse_duration L (VStr s) = builtin L TTimedelta (VStr s)"
| "parse_duration L (VInt n) = builtin L TTimedelta (VInt n)"
| "parse_duration L (VBool b) = builtin L TTimedelta (VBool b)"
| "parse_duration L (VFloat x) = builtin L TTimedelta (VFloat x)"
| "parse_duration L _ = Inl PyTypeError"

fun model_validate :: "pylib \<Rightarrow> string \<Rightarrow> pyval \<Rightarrow> errkind + pyval" where
  "model_validate L c (VModel c' fs) =
     (if c' = c then Inr (VModel c' fs) else builtin L (TModel c) (VModel c' fs))"
| "model_validate L c v = builtin L (TModel c) v"

fun validate_type :: "pylib \<Rightarrow> ftype \<Rightarrow> pyval \<Rightarrow> errkind + pyval" where
  "validate_type L TBool v = bool_validator v"
| "validate_type L TInt v = int_validator L v"
| "validate_type L TFloat v = float_validator L v"
| "validate_type L TStr v = str_validator L v"
| "validate_type L TPath v = path_validator v"
| "validate_type L TSecretStr v = SecretStr_validate L v"
| "validate_type L TTimedelta v = parse_duration L v"
| "validate_type L (TOptional t) v = validate_type L t v"
| "validate_type L (TModel c) v = model_validate L c v"

section \<open>Settings classes and their construction\<close>

text \<open>
  A class carries its name, its \<^verbatim>\<open>Config\<close> and its fields in declaration order.
  A field has a literal default, or a \<^verbatim>\<open>default_factory\<close>: a callable without
  arguments, which reads the environment that is current when it is called.
\<close>

datatype error =
    ValidationError string "(string \<times> errkind) list"
  | UncaughtError string
  | JsonEnvironment string
  | ImmutableTypeError string
  | NoFieldValueError string string
  | AttributeError string

datatype dflt = Default pyval | DefaultFactory "environ \<Rightarrow> error + pyval"

record config =
  env_prefix :: string
  frozen :: bool

record model_field =
  fname :: string
  ftyp :: ftype
  fdefault :: dflt

record cls =
  cname :: string
  cconfig :: config
  cfields :: "model_field list"

text \<open>\<^verbatim>\<open>BaseSettings.Config\<close>, which a class without a \<^verbatim>\<open>Config\<close> of its own keeps.\<close>

definition BaseSettings_Config :: config where
  "BaseSettings_Config = \<lparr>env_prefix = [], frozen = False\<rparr>"

text \<open>
  The names under which a field is looked up in the lowered environment:
  \<^verbatim>\<open>(env_prefix + field.name).lower()\<close>.
\<close>

definition env_name :: "config \<Rightarrow> string \<Rightarrow> string" where
  "env_name cfg name = lower (env_prefix cfg @ name)"

fun is_complex :: "ftype \<Rightarrow> bool" where
  "is_complex (TModel c) = True"
| "is_complex (TOptional t) = is_complex t"
| "is_complex _ = False"

fun is_optional :: "ftype \<Rightarrow> bool" where
  "is_optional (TOptional t) = True"
| "is_optional _ = False"

text \<open>
  A field accepts \<^verbatim>\<open>None\<close> when it is annotated \<^verbatim>\<open>Optional\<close> or when its
  default is \<^verbatim>\<open>None\<close>.
\<close>

definition allow_none :: "model_field \<Rightarrow> bool" where
  "allow_none f =
     (is_optional (ftyp f) \<or> (case fdefault f of Default VNone \<Rightarrow> True | _ \<Rightarrow> False))"

definition field_validate :: "pylib \<Rightarrow> model_field \<Rightarrow> pyval \<Rightarrow> errkind + pyval" where
  "field_validate L f v =
     (case v of
        VNone \<Rightarrow> if allow_none f then Inr VNone else Inl NoneIsNotAllowedError
      | _ \<Rightarrow> validate_type L (ftyp f) v)"

text \<open>
  The environment source: one entry for each field whose variable is set. The
  variable of a nested-model field is decoded by pydantic as JSON and validated as
  that model. This development does not follow that path: \<open>JsonEnvironment\<close> marks
  a construction that takes it, as an outcome of its own that is neither a success nor
  one of the errors of the code, and every statement below is either about
  constructions that succeed or assumes that no such variable is set.
\<close>

definition env_settings :: "config \<Rightarrow> environ \<Rightarrow> model_field list \<Rightarrow> error + kwargs" where
  "env_settings cfg env fs =
     (case [f \<leftarrow> fs. is_complex (ftyp f) \<and> env_vars env (env_name cfg (fname f)) \<noteq> None] of
        f # _ \<Rightarrow> Inl (JsonEnvironment (env_name cfg (fname f)))
      | [] \<Rightarrow>
          Inr (concat (map (\<lambda>f. case env_vars env (env_name cfg (fname f)) of
                                  None \<Rightarrow> []
                                | Some raw \<Rightarrow> [(fname f, VStr raw)]) fs)))"

definition get_default :: "environ \<Rightarrow> model_field \<Rightarrow> error + pyval" where
  "get_default env f = (case fdefault f of Default v \<Rightarrow> Inr v | DefaultFactory g \<Rightarrow> g env)"

text \<open>
  The value a field is validated from: its input value, or else its default.
\<close>

definition field_input :: "environ \<Rightarrow> kwargs \<Rightarrow> model_field \<Rightarrow> error + pyval" where
  "field_input env input f =
     (case map_of input (fname f) of Some v \<Rightarrow> Inr v | None \<Rightarrow> get_default env f)"

text \<open>
  \<^verbatim>\<open>validate_model\<close>: the fields in declaration order (\<^verbatim>\<open>validate_all\<close> is
  on for settings, so defaults are validated too). Validation errors are collected.
  An exception raised by a default factory, or an exception of a validator that
  pydantic does not catch, leaves the loop at once: the first one in field order is
  the one raised.
\<close>

fun uncaught :: "errkind \<Rightarrow> string option" where
  "uncaught (Uncaught x) = Some x"
| "uncaught _ = None"

fun validate_model ::
  "pylib \<Rightarrow> environ \<Rightarrow> kwargs \<Rightarrow> model_field list \<Rightarrow> error + (kwargs \<times> (string \<times> errkind) list)"
where
  "validate_model L env input [] = Inr ([], [])"
| "validate_model L env input (f # fs) =
     (case field_input env input f of
        Inl e \<Rightarrow> Inl e
      | Inr v \<Rightarrow>
          (case field_validate L f v of
             Inl k \<Rightarrow>
               (case uncaught k of
                  Some x \<Rightarrow> Inl (UncaughtError x)
                | None \<Rightarrow>
                    (case validate_model L env input fs of
                       Inl e \<Rightarrow> Inl e
                     | Inr (vals, errs) \<Rightarrow> Inr (vals, (fname f, k) # errs)))
           | Inr w \<Rightarrow>
               (case validate_model L env input fs of
                  Inl e \<Rightarrow> Inl e
                | Inr (vals, errs) \<Rightarrow> Inr ((fname f, w) # vals, errs))))"

text \<open>
  \<^verbatim>\<open>BaseSettings.__init__(**kwargs)\<close>: keyword arguments take precedence over the
  environment; keywords that name no field are errors (\<^verbatim>\<open>extra = forbid\<close>),
  reported after the fields in sorted order.
\<close>

definition construct :: "pylib \<Rightarrow> cls \<Rightarrow> environ \<Rightarrow> kwargs \<Rightarrow> error + pyval" where
  "construct L c env kw =
     (case env_settings (cconfig c) env (cfields c) of
        Inl e \<Rightarrow> Inl e
      | Inr envd \<Rightarrow>
          (case validate_model L env (kw @ envd) (cfields c) of
             Inl e \<Rightarrow> Inl e
           | Inr (vals, errs) \<Rightarrow>
               (let extra = sort [k \<leftarrow> map fst kw. k \<notin> set (map fname (cfields c))];
                    errors = errs @ map (\<lambda>k. (k, ExtraError)) extra
                in if errors = [] then Inr (VModel (cname c) vals)
                   else Inl (ValidationError (cname c) errors))))"

text \<open>
  Attribute access and assignment on a value. \<open>setattr\<close> gives the exception raised,
  if any, together with the object as it is after the statement.
\<close>

fun getattr :: "pyval \<Rightarrow> string \<Rightarrow> pyval option" where
  "getattr (VModel n fs) a = map_of fs a"
| "getattr _ a = None"

fun setattr :: "cls \<Rightarrow> pyval \<Rightarrow> string \<Rightarrow> pyval \<Rightarrow> error option \<times> pyval" where
  "setattr c (VModel n fs) a v =
     (if a \<notin> set (map fname (cfields c)) then (Some (NoFieldValueError n a), VModel n fs)
      else if frozen (cconfig c) then (Some (ImmutableTypeError n), VModel n fs)
      else (None, VModel n (map (\<lambda>(k, w). if k = a then (k, v) else (k, w)) fs)))"
| "setattr c obj a v = (Some (AttributeError a), obj)"

section \<open>The module \<^verbatim>\<open>prefect.utilities.settings\<close>\<close>

text \<open>
  Each class statement of the module, in source order. A literal default is the value
  of the expression on the right of the field at the time the class body runs; a
  nested field holds \<^verbatim>\<open>Field(default_factory=C)\<close>, and calling \<open>C\<close> without
  arguments is \<open>construct L C env []\<close>.
\<close>

definition fld :: "string \<Rightarrow> ftype \<Rightarrow> pyval \<Rightarrow> model_field" where
  "fld n t d = \<lparr>fname = n, ftyp = t, fdefault = Default d\<rparr>"

definition nested :: "pylib \<Rightarrow> string \<Rightarrow> cls \<Rightarrow> model_field" where
  "nested L n c =
     \<lparr>fname = n, ftyp = TModel (cname c),
      fdefault = DefaultFactory (\<lambda>env. construct L c env [])\<rparr>"

text \<open>
  \<^verbatim>\<open>
  class PrefectSettings(BaseSettings):
      class Config:
          env_prefix = "PREFECT_"
          frozen = True
      home: Path = Path("~/.prefect").expanduser()
      debug_mode: bool = False
      test_mode: bool = False
  \<close>
\<close>

definition PrefectSettings_class :: "string \<Rightarrow> cls" where
  "PrefectSettings_class homedir =
     \<lparr>cname = ''PrefectSettings'',
      cconfig = \<lparr>env_prefix = ''PREFECT_'', frozen = True\<rparr>,
      cfields =
        [fld ''home'' TPath (VPath (expanduser homedir ''~/.prefect'')),
         fld ''debug_mode'' TBool (VBool False),
         fld ''test_mode'' TBool (VBool False)]\<rparr>"

definition DataLocationSettings_class :: cls where
  "DataLocationSettings_class =
     \<lparr>cname = ''DataLocationSettings'',
      cconfig = \<lparr>env_prefix = ''PREFECT_ORION_DATA_'', frozen = True\<rparr>,
      cfields =
        [fld ''name'' TStr (VStr ''default''),
         fld ''scheme'' TStr (VStr ''file''),
         fld ''base_path'' TStr (VStr ''/tmp'')]\<rparr>"

text \<open>
  \<^verbatim>\<open>connection_url: SecretStr = f"sqlite+aiosqlite:////{SharedSettings.home}/orion.db"\<close>:
  the f-string is evaluated when the class body runs; \<open>home\<close> is
  \<^verbatim>\<open>str(SharedSettings.home)\<close> at that time.
\<close>

definition DatabaseSettings_class :: "string \<Rightarrow> cls" where
  "DatabaseSettings_class home =
     \<lparr>cname = ''DatabaseSettings'',
      cconfig = \<lparr>env_prefix = ''PREFECT_ORION_DATABASE_'', frozen = True\<rparr>,
      cfields =
        [fld ''connection_url'' TSecretStr (VStr (''sqlite+aiosqlite:////'' @ home @ ''/orion.db'')),
         fld ''echo'' TBool (VBool False),
         fld ''timeout'' (TOptional TFloat) (VInt 1),
         fld ''services_timeout'' (TOptional TFloat) VNone]\<rparr>"

text \<open>\<^verbatim>\<open>APISettings\<close> has no \<^verbatim>\<open>Config\<close> class.\<close>

definition APISettings_class :: cls where
  "APISettings_class =
     \<lparr>cname = ''APISettings'',
      cconfig = BaseSettings_Config,
      cfields =
        [fld ''default_limit'' TInt (VInt 200),
         fld ''host'' TStr (VStr ''127.0.0.1''),
         fld ''port'' TInt (VInt 5000),
         fld ''uvicorn_log_level'' TStr (VStr ''info'')]\<rparr>"

text \<open>\<^verbatim>\<open>timedelta(days=100)\<close> is \<open>100 * 86400 * 10^6\<close> microseconds.\<close>

definition ServicesSettings_class :: cls where
  "ServicesSettings_class =
     \<lparr>cname = ''ServicesSettings'',
      cconfig = \<lparr>env_prefix = ''PREFECT_ORION_SERVICES_'', frozen = True\<rparr>,
      cfields =
        [fld ''run_in_app'' TBool (VBool False),
         fld ''scheduler_loop_seconds'' TFloat (VInt 60),
         fld ''scheduler_deployment_batch_size'' TInt (VInt 100),
         fld ''scheduler_max_runs'' TInt (VInt 100),
         fld ''scheduler_max_scheduled_time'' TTimedelta (VTimedelta (100 * 86400 * 1000000)),
         fld ''agent_loop_seconds'' TFloat (VInt 5),
         fld ''agent_prefetch_seconds'' TInt (VInt 10)]\<rparr>"

definition OrionSettings_class :: "pylib \<Rightarrow> cls \<Rightarrow> cls \<Rightarrow> cls \<Rightarrow> cls \<Rightarrow> cls" where
  "OrionSettings_class L DatabaseSettings DataLocationSettings APISettings ServicesSettings =
     \<lparr>cname = ''OrionSettings'',
      cconfig = \<lparr>env_prefix = ''PREFECT_ORION_'', frozen = True\<rparr>,
      cfields =
        [nested L ''database'' DatabaseSettings,
         nested L ''data'' DataLocationSettings,
         nested L ''api'' APISettings,
         nested L ''services'' ServicesSettings]\<rparr>"

text \<open>
  \<^verbatim>\<open>settings_path: Path = Path(f"{SharedSettings.home}/logging.yml")\<close>, evaluated
  when the class body runs.
\<close>

definition LoggingSettings_class :: "string \<Rightarrow> cls" where
  "LoggingSettings_class home =
     \<lparr>cname = ''LoggingSettings'',
      cconfig = \<lparr>env_prefix = ''PREFECT_LOGGING_'', frozen = True\<rparr>,
      cfields = [fld ''settings_path'' TPath (VPath (Path (home @ ''/logging.yml'')))]\<rparr>"

text \<open>
  \<^verbatim>\<open>class Settings(PrefectSettings)\<close>: the fields and the \<^verbatim>\<open>Config\<close> of the
  base class are inherited, and the inherited fields come first.
\<close>

definition Settings_class :: "pylib \<Rightarrow> cls \<Rightarrow> cls \<Rightarrow> cls \<Rightarrow> cls" where
  "Settings_class L PrefectSettings LoggingSettings OrionSettings =
     \<lparr>cname = ''Settings'',
      cconfig = cconfig PrefectSettings,
      cfields = cfields PrefectSettings @
        [nested L ''logging'' LoggingSettings,
         nested L ''orion'' OrionSettings,
         fld ''orion_host'' TStr VNone]\<rparr>"

text \<open>
  The class objects as the module builds them, given the home directory \<open>homedir\<close> of
  the user and the string \<open>home\<close> of \<^verbatim>\<open>SharedSettings.home\<close> at the time the
  class bodies run.
\<close>

definition OrionSettings_of :: "pylib \<Rightarrow> string \<Rightarrow> cls" where
  "OrionSettings_of L home =
     OrionSettings_class L (DatabaseSettings_class home) DataLocationSettings_class
       APISettings_class ServicesSettings_class"

definition Settings_of :: "pylib \<Rightarrow> string \<Rightarrow> string \<Rightarrow> cls" where
  "Settings_of L homedir home =
     Settings_class L (PrefectSettings_class homedir) (LoggingSettings_class home)
       (OrionSettings_of L home)"

definition module_classes :: "pylib \<Rightarrow> string \<Rightarrow> string \<Rightarrow> cls list" where
  "module_classes L homedir home =
     [PrefectSettings_class homedir, DataLocationSettings_class, DatabaseSettings_class home,
      APISettings_class, ServicesSettings_class, OrionSettings_of L home,
      LoggingSettings_class home, Settings_of L homedir home]"


text \<open>
  The namespace of the module once it is loaded: its classes and its two instances,
  \<^verbatim>\<open>SharedSettings = PrefectSettings()\<close> and \<^verbatim>\<open>settings = Settings()\<close>.
\<close>

record module =
  PrefectSettings :: cls
  SharedSettings :: pyval
  DataLocationSettings :: cls
  DatabaseSettings :: cls
  APISettings :: cls
  ServicesSettings :: cls
  OrionSettings :: cls
  LoggingSettings :: cls
  Settings :: cls
  settings :: pyval

text \<open>
  Formatting \<^verbatim>\<open>SharedSettings.home\<close> inside an f-string. The attribute is a path
  whenever \<^verbatim>\<open>PrefectSettings()\<close> has succeeded (\<open>shared_home_is_path\<close> below),
  so the other branch is never taken.
\<close>

definition format_home :: "pyval \<Rightarrow> error + string" where
  "format_home shared =
     (case getattr shared ''home'' of
        Some (VPath p) \<Rightarrow> Inr p
      | _ \<Rightarrow> Inl (AttributeError ''home''))"

text \<open>
  Loading the module under the environment \<open>env\<close>, for a process whose user has the
  home directory \<open>homedir\<close>: the statements of the module from top to bottom. The body
  of \<^verbatim>\<open>PrefectSettings\<close> calls \<^verbatim>\<open>expanduser()\<close>, which raises when the home
  directory cannot be determined.
\<close>

definition load_module :: "pylib \<Rightarrow> string \<Rightarrow> environ \<Rightarrow> error + module" where
  "load_module L homedir env =
     (if take 1 homedir = ''~'' then Inl (UncaughtError ''RuntimeError'')
      else
     (case construct L (PrefectSettings_class homedir) env [] of
        Inl e \<Rightarrow> Inl e
      | Inr shared \<Rightarrow>
     (case format_home shared of
        Inl e \<Rightarrow> Inl e
      | Inr home \<Rightarrow>
     (case construct L (Settings_of L homedir home) env [] of
        Inl e \<Rightarrow> Inl e
      | Inr tree \<Rightarrow>
          Inr \<lparr>PrefectSettings = PrefectSettings_class homedir,
               SharedSettings = shared,
               DataLocationSettings = DataLocationSettings_class,
               DatabaseSettings = DatabaseSettings_class home,
               APISettings = APISettings_class,
               ServicesSettings = ServicesSettings_class,
               OrionSettings = OrionSettings_of L home,
               LoggingSettings = LoggingSettings_class home,
               Settings = Settings_of L homedir home,
               settings = tree\<rparr>))))"

section \<open>Secret strings\<close>

text \<open>
  pydantic's \<^verbatim>\<open>SecretStr\<close>: \<^verbatim>\<open>str()\<close> shows ten asterisks for a non-empty
  secret and nothing for an empty one, \<^verbatim>\<open>get_secret_value()\<close> returns the raw
  string, and \<^verbatim>\<open>==\<close> holds between two secrets with equal raw strings.
\<close>

fun SecretStr_str :: "pyval \<Rightarrow> string option" where
  "SecretStr_str (VSecret s) = Some (if s \<noteq> [] then ''**********'' else [])"
| "SecretStr_str _ = None"

fun get_secret_value :: "pyval \<Rightarrow> string option" where
  "get_secret_value (VSecret s) = Some s"
| "get_secret_value _ = None"

fun SecretStr_eq :: "pyval \<Rightarrow> pyval \<Rightarrow> bool" where
  "SecretStr_eq (VSecret a) (VSecret b) = (a = b)"
| "SecretStr_eq _ _ = False"

section \<open>Properties of \<open>drop_unset\<close>\<close>

lemma NotSetType_eq_iff: "NotSetType_eq v \<longleftrightarrow> v = VNotSet"
  by (cases v) simp_all

lemma drop_unset_filter: "drop_unset kwargs = filter (\<lambda>e. snd e \<noteq> VNotSet) kwargs"
proof -
  have f: "(\<lambda>(key, val). ne_NOTSET val) = (\<lambda>e. snd e \<noteq> VNotSet)"
    by (auto simp: ne_NOTSET_def NotSetType_eq_iff fun_eq_iff)
  show ?thesis
    unfolding drop_unset_def f ..
qed

text \<open>
  C9: \<open>drop_unset\<close> returns exactly the entries whose value is not the unset sentinel,
  under their original keys and in their original order; an entry whose value is
  \<^verbatim>\<open>None\<close> or the empty string is kept.
\<close>

theorem drop_unset_keeps_exactly_set:
  "drop_unset kwargs = filter (\<lambda>e. snd e \<noteq> VNotSet) kwargs
   \<and> set (drop_unset kwargs) = set kwargs - {e. snd e = VNotSet}
   \<and> drop_unset (xs @ [(k, VNone)] @ ys) = drop_unset xs @ [(k, VNone)] @ drop_unset ys
   \<and> drop_unset (xs @ [(k, VStr [])] @ ys) = drop_unset xs @ [(k, VStr [])] @ drop_unset ys
   \<and> drop_unset (xs @ [(k, VNotSet)] @ ys) = drop_unset xs @ drop_unset ys"
  unfolding drop_unset_filter by auto

section \<open>Secret strings\<close>

text \<open>
  C7, as stated, fails: the rendering of a secret is not always the fixed mask (the
  empty secret renders as the empty string), and the mask consists of asterisks, so
  it does contain the characters of a raw value made of asterisks; for the raw value
  \<open>**********\<close> the rendering is the raw value.
\<close>

theorem SecretStr_mask_counterexample:
  "SecretStr_str (VSecret []) = Some []
   \<and> SecretStr_str (VSecret ''*'') = Some ''**********''
   \<and> CHR ''*'' \<in> set ''**********''
   \<and> SecretStr_str (VSecret ''**********'') = get_secret_value (VSecret ''**********'')"
  by simp

text \<open>
  C7, amended: a string validated for a \<^verbatim>\<open>SecretStr\<close> field is wrapped; the
  rendering of a secret is the fixed mask of ten asterisks for every non-empty raw
  string and empty for the empty one, so that it is the same for all non-empty raw
  strings; the accessor returns the raw string; and two secrets are equal exactly when
  their raw strings are.
\<close>

theorem SecretStr_mask_reveal_eq:
  "validate_type L TSecretStr (VStr s) = Inr (VSecret s)
   \<and> SecretStr_str (VSecret s) = Some (if s = [] then [] else ''**********'')
   \<and> get_secret_value (VSecret s) = Some s
   \<and> SecretStr_eq (VSecret a) (VSecret b) = (a = b)"
  by simp

section \<open>The API settings\<close>

lemma APISettings_defaults:
  "construct L APISettings_class [] [] =
     Inr (VModel ''APISettings''
       [(''default_limit'', VInt 200), (''host'', VStr ''127.0.0.1''),
        (''port'', VInt 5000), (''uvicorn_log_level'', VStr ''info'')])"
  by (simp add: construct_def env_settings_def APISettings_class_def BaseSettings_Config_def
      fld_def env_vars_def get_default_def field_input_def field_validate_def)

text \<open>
  C2 at \<^verbatim>\<open>a = APISettings(); a.port = 1\<close>: the class declares no
  \<^verbatim>\<open>Config\<close> with \<^verbatim>\<open>frozen = True\<close>, as every other class of the module
  does, so the assignment raises nothing and the field has the new value afterwards.
\<close>

theorem APISettings_assignment_succeeds:
  "frozen (cconfig APISettings_class) = False
   \<and> setattr APISettings_class
        (VModel ''APISettings''
          [(''default_limit'', VInt 200), (''host'', VStr ''127.0.0.1''),
           (''port'', VInt 5000), (''uvicorn_log_level'', VStr ''info'')])
        ''port'' (VInt 1)
      = (None,
         VModel ''APISettings''
          [(''default_limit'', VInt 200), (''host'', VStr ''127.0.0.1''),
           (''port'', VInt 1), (''uvicorn_log_level'', VStr ''info'')])"
  by (simp add: APISettings_class_def BaseSettings_Config_def fld_def)

section \<open>Properties of construction\<close>

lemma map_of_drop_unset:
  "distinct (map fst kw) \<Longrightarrow>
   map_of (drop_unset kw) n =
     (case map_of kw n of Some v \<Rightarrow> if v = VNotSet then None else Some v | None \<Rightarrow> None)"
proof (induction kw)
  case Nil
  then show ?case by (simp add: drop_unset_filter)
next
  case (Cons e kw)
  obtain k v where e: "e = (k, v)" by (cases e)
  from Cons.prems e have k: "k \<notin> fst ` set kw" and d: "distinct (map fst kw)" by auto
  from k have none: "map_of kw k = None" by (simp add: map_of_eq_None_iff)
  show ?case
    using Cons.IH [OF d] none e
    by (auto simp: drop_unset_filter split: option.splits)
qed

lemma env_settings_Inr_map_of:
  assumes "env_settings cfg env fs = Inr envd" "distinct (map fname fs)" "f \<in> set fs"
  shows "map_of envd (fname f) = map_option VStr (env_vars env (env_name cfg (fname f)))"
proof -
  let ?g = "\<lambda>f. case env_vars env (env_name cfg (fname f)) of
                  None \<Rightarrow> [] | Some raw \<Rightarrow> [(fname f, VStr raw)]"
  from assms(1) have envd: "envd = concat (map ?g fs)"
    by (auto simp: env_settings_def split: list.splits)
  have "distinct (map fname fs) \<Longrightarrow> f \<in> set fs \<Longrightarrow>
        map_of (concat (map ?g fs)) (fname f) =
          map_option VStr (env_vars env (env_name cfg (fname f)))"
  proof (induction fs)
    case Nil
    then show ?case by simp
  next
    case (Cons a fs)
    have notin: "\<And>n. n \<notin> fname ` set fs \<Longrightarrow> map_of (concat (map ?g fs)) n = None"
      by (induction fs) (auto split: option.splits)
    show ?case
    proof (cases "f = a")
      case True
      with Cons.prems notin [of "fname a"] show ?thesis
        by (auto split: option.splits)
    next
      case False
      with Cons.prems have fs: "f \<in> set fs" and d: "distinct (map fname fs)"
        and na: "fname a \<notin> fname ` set fs" by auto
      from fs na have ne: "fname f \<noteq> fname a" by (metis imageI)
      from Cons.IH [OF d fs] ne show ?thesis
        by (simp split: option.splits)
    qed
  qed
  with assms envd show ?thesis by simp
qed

lemma env_settings_Inr_dom:
  assumes "env_settings cfg env fs = Inr envd" "n \<notin> fname ` set fs"
  shows "map_of envd n = None"
proof -
  let ?g = "\<lambda>f. case env_vars env (env_name cfg (fname f)) of
                  None \<Rightarrow> [] | Some raw \<Rightarrow> [(fname f, VStr raw)]"
  from assms(1) have envd: "envd = concat (map ?g fs)"
    by (auto simp: env_settings_def split: list.splits)
  have "n \<notin> fname ` set fs \<Longrightarrow> map_of (concat (map ?g fs)) n = None"
    by (induction fs) (auto split: option.splits)
  with assms envd show ?thesis by simp
qed

lemma validate_model_Cons_Inr:
  assumes "validate_model L env input (a # fs) = Inr (vals, errs)"
  obtains v vals' errs' where
    "field_input env input a = Inr v"
    "validate_model L env input fs = Inr (vals', errs')"
    "(vals, errs) = (case field_validate L a v of
              Inl k \<Rightarrow> (vals', (fname a, k) # errs')
            | Inr w \<Rightarrow> ((fname a, w) # vals', errs'))"
    "\<And>k. field_validate L a v = Inl k \<Longrightarrow> uncaught k = None"
proof (cases "field_input env input a")
  case (Inl e)
  with assms show ?thesis
    by simp
next
  case (Inr v)
  note v = this
  show ?thesis
  proof (cases "field_validate L a v")
    case (Inl k)
    note k = this
    show ?thesis
    proof (cases "uncaught k")
      case (Some x)
      with assms v k show ?thesis by simp
    next
      case None
      note u = this
      show ?thesis
      proof (cases "validate_model L env input fs")
        case (Inl e)
        with assms v k u show ?thesis by simp
      next
        case (Inr r)
        obtain vals' errs' where r: "r = (vals', errs')" by (cases r)
        from assms v k u Inr r have "(vals, errs) = (vals', (fname a, k) # errs')"
          by simp
        with v k u Inr r that [of v vals' errs'] show ?thesis by simp
      qed
    qed
  next
    case (Inr w)
    note w = this
    show ?thesis
    proof (cases "validate_model L env input fs")
      case (Inl e)
      with assms v w show ?thesis by simp
    next
      case (Inr r)
      obtain vals' errs' where r: "r = (vals', errs')" by (cases r)
      from assms v w Inr r have "(vals, errs) = ((fname a, w) # vals', errs')"
        by simp
      with v w Inr r that [of v vals' errs'] show ?thesis by simp
    qed
  qed
qed

lemma validate_model_value:
  "validate_model L env input fs = Inr (vals, errs) \<Longrightarrow> distinct (map fname fs) \<Longrightarrow>
   f \<in> set fs \<Longrightarrow>
   \<exists>v. field_input env input f = Inr v \<and>
       (case field_validate L f v of
          Inl k \<Rightarrow> (fname f, k) \<in> set errs
        | Inr w \<Rightarrow> map_of vals (fname f) = Some w)"
proof (induction fs arbitrary: vals errs)
  case Nil
  then show ?case by simp
next
  case (Cons a fs)
  from Cons.prems(1) obtain v vals' errs' where
    v: "field_input env input a = Inr v" and
    rest: "validate_model L env input fs = Inr (vals', errs')" and
    res: "(vals, errs) = (case field_validate L a v of
              Inl k \<Rightarrow> (vals', (fname a, k) # errs')
            | Inr w \<Rightarrow> ((fname a, w) # vals', errs'))"
    by (rule validate_model_Cons_Inr)
  show ?case
  proof (cases "f = a")
    case True
    with v res show ?thesis
      by (cases "field_validate L a v") auto
  next
    case False
    with Cons.prems have f: "f \<in> set fs" and na: "fname a \<notin> fname ` set fs"
      and d: "distinct (map fname fs)" by auto
    from f na have ne: "fname f \<noteq> fname a" by (metis imageI)
    from Cons.IH [OF rest d f] obtain u where
      u: "field_input env input f = Inr u" and
      c: "case field_validate L f u of
            Inl k \<Rightarrow> (fname f, k) \<in> set errs'
          | Inr w \<Rightarrow> map_of vals' (fname f) = Some w"
      by blast
    have "case field_validate L f u of
            Inl k \<Rightarrow> (fname f, k) \<in> set errs
          | Inr w \<Rightarrow> map_of vals (fname f) = Some w"
    proof (cases "field_validate L a v")
      case (Inl k)
      with res have "vals = vals'" "errs = (fname a, k) # errs'" by simp_all
      with c show ?thesis by (cases "field_validate L f u") simp_all
    next
      case (Inr w)
      with res have "vals = (fname a, w) # vals'" "errs = errs'" by simp_all
      with c ne show ?thesis by (cases "field_validate L f u") simp_all
    qed
    with u show ?thesis by blast
  qed
qed

lemma construct_Inr:
  assumes "construct L c env kw = Inr inst"
  obtains envd vals where
    "env_settings (cconfig c) env (cfields c) = Inr envd"
    "validate_model L env (kw @ envd) (cfields c) = Inr (vals, [])"
    "inst = VModel (cname c) vals"
proof (cases "env_settings (cconfig c) env (cfields c)")
  case (Inl e)
  with assms show ?thesis by (simp add: construct_def)
next
  case (Inr envd)
  note envd = this
  show ?thesis
  proof (cases "validate_model L env (kw @ envd) (cfields c)")
    case (Inl e)
    with assms envd show ?thesis by (simp add: construct_def)
  next
    case (Inr r)
    obtain vals errs where r: "r = (vals, errs)" by (cases r)
    from assms envd Inr r have "errs = []" "inst = VModel (cname c) vals"
      by (auto simp: construct_def Let_def split: if_splits)
    with envd Inr r that show ?thesis by simp
  qed
qed

section \<open>Evaluation\<close>

lemma lower_char_simps:
  "lower_char CHR ''A'' = CHR ''a''"
  "lower_char CHR ''B'' = CHR ''b''"
  "lower_char CHR ''C'' = CHR ''c''"
  "lower_char CHR ''D'' = CHR ''d''"
  "lower_char CHR ''E'' = CHR ''e''"
  "lower_char CHR ''F'' = CHR ''f''"
  "lower_char CHR ''G'' = CHR ''g''"
  "lower_char CHR ''H'' = CHR ''h''"
  "lower_char CHR ''I'' = CHR ''i''"
  "lower_char CHR ''J'' = CHR ''j''"
  "lower_char CHR ''K'' = CHR ''k''"
  "lower_char CHR ''L'' = CHR ''l''"
  "lower_char CHR ''M'' = CHR ''m''"
  "lower_char CHR ''N'' = CHR ''n''"
  "lower_char CHR ''O'' = CHR ''o''"
  "lower_char CHR ''P'' = CHR ''p''"
  "lower_char CHR ''Q'' = CHR ''q''"
  "lower_char CHR ''R'' = CHR ''r''"
  "lower_char CHR ''S'' = CHR ''s''"
  "lower_char CHR ''T'' = CHR ''t''"
  "lower_char CHR ''U'' = CHR ''u''"
  "lower_char CHR ''V'' = CHR ''v''"
  "lower_char CHR ''W'' = CHR ''w''"
  "lower_char CHR ''X'' = CHR ''x''"
  "lower_char CHR ''Y'' = CHR ''y''"
  "lower_char CHR ''Z'' = CHR ''z''"
  "lower_char CHR ''a'' = CHR ''a''"
  "lower_char CHR ''b'' = CHR ''b''"
  "lower_char CHR ''c'' = CHR ''c''"
  "lower_char CHR ''d'' = CHR ''d''"
  "lower_char CHR ''e'' = CHR ''e''"
  "lower_char CHR ''f'' = CHR ''f''"
  "lower_char CHR ''g'' = CHR ''g''"
  "lower_char CHR ''h'' = CHR ''h''"
  "lower_char CHR ''i'' = CHR ''i''"
  "lower_char CHR ''j'' = CHR ''j''"
  "lower_char CHR ''k'' = CHR ''k''"
  "lower_char CHR ''l'' = CHR ''l''"
  "lower_char CHR ''m'' = CHR ''m''"
  "lower_char CHR ''n'' = CHR ''n''"
  "lower_char CHR ''o'' = CHR ''o''"
  "lower_char CHR ''p'' = CHR ''p''"
  "lower_char CHR ''q'' = CHR ''q''"
  "lower_char CHR ''r'' = CHR ''r''"
  "lower_char CHR ''s'' = CHR ''s''"
  "lower_char CHR ''t'' = CHR ''t''"
  "lower_char CHR ''u'' = CHR ''u''"
  "lower_char CHR ''v'' = CHR ''v''"
  "lower_char CHR ''w'' = CHR ''w''"
  "lower_char CHR ''x'' = CHR ''x''"
  "lower_char CHR ''y'' = CHR ''y''"
  "lower_char CHR ''z'' = CHR ''z''"
  "lower_char CHR ''_'' = CHR ''_''"
  "lower_char CHR ''0'' = CHR ''0''"
  "lower_char CHR ''1'' = CHR ''1''"
  "lower_char CHR ''2'' = CHR ''2''"
  "lower_char CHR ''3'' = CHR ''3''"
  "lower_char CHR ''4'' = CHR ''4''"
  "lower_char CHR ''5'' = CHR ''5''"
  "lower_char CHR ''6'' = CHR ''6''"
  "lower_char CHR ''7'' = CHR ''7''"
  "lower_char CHR ''8'' = CHR ''8''"
  "lower_char CHR ''9'' = CHR ''9''"
  by code_simp+

lemma lower_Nil: "lower [] = []"
  by (simp add: lower_def)

lemma lower_Cons: "lower (c # cs) = lower_char c # lower cs"
  by (simp add: lower_def)

lemmas lower_simps = lower_Nil lower_Cons lower_char_simps

lemmas class_defs =
  PrefectSettings_class_def DataLocationSettings_class_def DatabaseSettings_class_def
  APISettings_class_def ServicesSettings_class_def OrionSettings_class_def
  LoggingSettings_class_def Settings_class_def OrionSettings_of_def Settings_of_def
  BaseSettings_Config_def fld_def nested_def

lemmas construct_defs =
  construct_def env_settings_def env_vars_def env_name_def get_default_def field_input_def
  field_validate_def allow_none_def

section \<open>The classes of the module\<close>

lemma module_classes_distinct:
  "c \<in> set (module_classes L homedir home) \<Longrightarrow> distinct (map fname (cfields c))"
  by (auto simp: module_classes_def class_defs)

lemma module_classes_scalar_default:
  "c \<in> set (module_classes L homedir home) \<Longrightarrow> f \<in> set (cfields c) \<Longrightarrow>
   \<not> is_complex (ftyp f) \<Longrightarrow> \<exists>d. fdefault f = Default d"
  by (auto simp: module_classes_def class_defs)

section \<open>Typed results\<close>

lemma builtin_typed:
  "lib_typed L \<Longrightarrow> builtin L t v = Inr w \<Longrightarrow> has_type t w"
  by (auto simp: builtin_def lib_typed_def split: conversion.splits)

lemma bool_validator_typed: "bool_validator v = Inr w \<Longrightarrow> has_type TBool w"
  by (cases v) (auto split: if_splits)

lemma str_validator_typed:
  "lib_typed L \<Longrightarrow> str_validator L v = Inr w \<Longrightarrow> has_type TStr w"
  by (cases v) (auto dest: builtin_typed)

lemma int_validator_typed:
  "lib_typed L \<Longrightarrow> int_validator L v = Inr w \<Longrightarrow> has_type TInt w"
  by (cases v) (auto dest: builtin_typed split: option.splits)

lemma float_validator_typed:
  "lib_typed L \<Longrightarrow> float_validator L v = Inr w \<Longrightarrow> has_type TFloat w"
  by (cases v) (auto dest: builtin_typed split: option.splits if_splits)

lemma path_validator_typed: "path_validator v = Inr w \<Longrightarrow> has_type TPath w"
  by (cases v) auto

lemma SecretStr_validate_typed:
  "SecretStr_validate L v = Inr w \<Longrightarrow> has_type TSecretStr w"
  by (cases v) (auto split: sum.splits pyval.splits)

lemma parse_duration_typed:
  "lib_typed L \<Longrightarrow> parse_duration L v = Inr w \<Longrightarrow> has_type TTimedelta w"
  by (cases v) (auto dest: builtin_typed)

lemma model_validate_typed:
  "lib_typed L \<Longrightarrow> model_validate L c v = Inr w \<Longrightarrow> has_type (TModel c) w"
  by (cases v) (auto dest: builtin_typed split: if_splits)

lemma validate_type_typed:
  "lib_typed L \<Longrightarrow> validate_type L t v = Inr w \<Longrightarrow> has_type t w"
proof (induction t)
  case TBool
  then show ?case by (simp add: bool_validator_typed)
next
  case TInt
  then show ?case by (simp add: int_validator_typed)
next
  case TFloat
  then show ?case by (simp add: float_validator_typed)
next
  case TStr
  then show ?case by (simp add: str_validator_typed)
next
  case TPath
  then show ?case by (simp add: path_validator_typed)
next
  case TSecretStr
  then show ?case by (simp add: SecretStr_validate_typed)
next
  case TTimedelta
  then show ?case by (simp add: parse_duration_typed)
next
  case (TOptional t)
  then show ?case by simp
next
  case (TModel c)
  then show ?case by (simp add: model_validate_typed)
qed

lemma field_validate_typed:
  assumes "lib_typed L" "field_validate L f v = Inr w"
  shows "(w = VNone \<and> allow_none f) \<or> has_type (ftyp f) w"
proof (cases "v = VNone")
  case True
  with assms(2) show ?thesis
    by (simp add: field_validate_def split: if_splits)
next
  case False
  with assms(2) have "validate_type L (ftyp f) v = Inr w"
    by (cases v) (simp_all add: field_validate_def)
  with assms(1) show ?thesis
    by (simp add: validate_type_typed)
qed

lemma validate_type_NotSet:
  "\<not> is_complex t \<Longrightarrow> \<exists>k. validate_type L t VNotSet = Inl k \<and> uncaught k = None"
  by (induction t) simp_all

lemma lib_typed_no_builtins: "lib_typed no_builtins"
  by (simp add: lib_typed_def no_builtins_def)

section \<open>The value of a field after construction\<close>

lemma env_settings_Inr_complex:
  assumes "env_settings cfg env fs = Inr envd" "f \<in> set fs" "is_complex (ftyp f)"
  shows "env_vars env (env_name cfg (fname f)) = None"
proof -
  from assms(1)
  have "[f \<leftarrow> fs. is_complex (ftyp f) \<and> env_vars env (env_name cfg (fname f)) \<noteq> None] = []"
    by (auto simp: env_settings_def split: list.splits)
  with assms(2,3) show ?thesis
    by (auto simp: filter_empty_conv)
qed

lemma construct_field_value:
  assumes "construct L c env kw = Inr inst"
    and "distinct (map fname (cfields c))"
    and "f \<in> set (cfields c)"
  shows "\<exists>v w.
    (case map_of kw (fname f) of
       Some u \<Rightarrow> Inr u
     | None \<Rightarrow>
         (case env_vars env (env_name (cconfig c) (fname f)) of
            Some raw \<Rightarrow> Inr (VStr raw)
          | None \<Rightarrow> get_default env f)) = Inr v
    \<and> field_validate L f v = Inr w \<and> getattr inst (fname f) = Some w"
proof -
  from assms(1) obtain envd vals where
    envd: "env_settings (cconfig c) env (cfields c) = Inr envd" and
    vm: "validate_model L env (kw @ envd) (cfields c) = Inr (vals, [])" and
    inst: "inst = VModel (cname c) vals"
    by (rule construct_Inr)
  from validate_model_value [OF vm assms(2,3)] obtain v where
    v: "field_input env (kw @ envd) f = Inr v" and
    c: "case field_validate L f v of
          Inl k \<Rightarrow> (fname f, k) \<in> set []
        | Inr w \<Rightarrow> map_of vals (fname f) = Some w"
    by blast
  from c obtain w where w: "field_validate L f v = Inr w" "map_of vals (fname f) = Some w"
    by (cases "field_validate L f v") simp_all
  have e: "map_of envd (fname f) = map_option VStr (env_vars env (env_name (cconfig c) (fname f)))"
    using envd assms(2,3) by (rule env_settings_Inr_map_of)
  have "(case map_of kw (fname f) of
       Some u \<Rightarrow> Inr u
     | None \<Rightarrow>
         (case env_vars env (env_name (cconfig c) (fname f)) of
            Some raw \<Rightarrow> Inr (VStr raw)
          | None \<Rightarrow> get_default env f)) = Inr v"
    using v
    unfolding field_input_def map_of_append map_add_def e
    by (auto split: option.splits)
  with w inst show ?thesis by simp
qed

lemma construct_nokw_field_value:
  assumes "construct L c env [] = Inr inst"
    and "distinct (map fname (cfields c))"
    and "f \<in> set (cfields c)"
    and "env_vars env (env_name (cconfig c) (fname f)) = None"
  shows "\<exists>v w. get_default env f = Inr v \<and> field_validate L f v = Inr w
    \<and> getattr inst (fname f) = Some w"
  using construct_field_value [OF assms(1-3)] assms(4) by simp

lemma construct_nokw_env_value:
  assumes "construct L c env [] = Inr inst"
    and "distinct (map fname (cfields c))"
    and "f \<in> set (cfields c)"
    and "env_vars env (env_name (cconfig c) (fname f)) = Some raw"
  shows "\<exists>w. field_validate L f (VStr raw) = Inr w \<and> getattr inst (fname f) = Some w"
  using construct_field_value [OF assms(1-3)] assms(4) by simp

lemma load_module_Inr:
  assumes "load_module L homedir env = Inr m"
  obtains home where
    "take 1 homedir \<noteq> ''~''"
    "construct L (PrefectSettings_class homedir) env [] = Inr (SharedSettings m)"
    "format_home (SharedSettings m) = Inr home"
    "construct L (Settings_of L homedir home) env [] = Inr (settings m)"
    "PrefectSettings m = PrefectSettings_class homedir"
    "DataLocationSettings m = DataLocationSettings_class"
    "DatabaseSettings m = DatabaseSettings_class home"
    "APISettings m = APISettings_class"
    "ServicesSettings m = ServicesSettings_class"
    "OrionSettings m = OrionSettings_of L home"
    "LoggingSettings m = LoggingSettings_class home"
    "Settings m = Settings_of L homedir home"
proof -
  from assms have guard: "take 1 homedir \<noteq> ''~''"
    by (auto simp: load_module_def split: if_splits)
  show ?thesis
  proof (cases "construct L (PrefectSettings_class homedir) env []")
    case (Inl e)
    with assms guard show ?thesis by (simp add: load_module_def)
  next
    case (Inr shared)
    note shared = this
    show ?thesis
    proof (cases "format_home shared")
      case (Inl e)
      with assms guard shared show ?thesis by (simp add: load_module_def)
    next
      case (Inr home)
      note home = this
      show ?thesis
      proof (cases "construct L (Settings_of L homedir home) env []")
        case (Inl e)
        with assms guard shared home show ?thesis by (simp add: load_module_def)
      next
        case (Inr tree)
        with assms guard shared home have
          "m = \<lparr>PrefectSettings = PrefectSettings_class homedir,
                 SharedSettings = shared,
                 DataLocationSettings = DataLocationSettings_class,
                 DatabaseSettings = DatabaseSettings_class home,
                 APISettings = APISettings_class,
                 ServicesSettings = ServicesSettings_class,
                 OrionSettings = OrionSettings_of L home,
                 LoggingSettings = LoggingSettings_class home,
                 Settings = Settings_of L homedir home,
                 settings = tree\<rparr>"
          by (simp add: load_module_def)
        with guard shared home Inr that [of home] show ?thesis by simp
      qed
    qed
  qed
qed

section \<open>The order of resolution\<close>

lemma decimal_30: "decimal ''30'' = Some 30"
  by code_simp

text \<open>
  C4, as stated, fails for the unset sentinel: the constructor does not know it. With
  \<^verbatim>\<open>PREFECT_ORION_DATABASE_ECHO=true\<close> in the environment,
  \<^verbatim>\<open>DatabaseSettings(echo=NOTSET)\<close> does not fall back to the variable: the
  sentinel is taken as the value of the field and is rejected by the validator.
\<close>

theorem sentinel_override_counterexample:
  "construct no_builtins (DatabaseSettings_class ''/home/u'')
     [(''PREFECT_ORION_DATABASE_ECHO'', ''true'')] [(''echo'', VNotSet)] =
     Inl (ValidationError ''DatabaseSettings'' [(''echo'', BoolError)])"
  by (simp add: construct_defs class_defs lower_simps)

text \<open>
  C4, amended: in an instance of a class of the module, every scalar field holds the
  validated form of: the keyword argument given for it, whatever it is (so it is never
  the unset sentinel, which no validator accepts); otherwise the value of the field's
  environment variable, when it is set; otherwise the declared default. The validated
  form is \<^verbatim>\<open>None\<close>, for a field that admits it, or a value of the declared type
  (the conversions of the built-ins returning values of the type they convert for).
  The string \<open>30\<close>
  validates to the float \<open>30.0\<close> for the field \<^verbatim>\<open>timeout\<close>. Only a keyword
  dictionary passed through \<open>drop_unset\<close> treats the sentinel as "not given".
\<close>

theorem resolution_order:
  assumes "c \<in> set (module_classes L homedir home)"
    and "f \<in> set (cfields c)"
    and "\<not> is_complex (ftyp f)"
    and "lib_typed L"
    and "construct L c env kw = Inr inst"
  shows "\<exists>d w. fdefault f = Default d \<and> getattr inst (fname f) = Some w
    \<and> field_validate L f
        (case map_of kw (fname f) of
           Some v \<Rightarrow> v
         | None \<Rightarrow>
             (case env_vars env (env_name (cconfig c) (fname f)) of
                Some raw \<Rightarrow> VStr raw
              | None \<Rightarrow> d)) = Inr w
    \<and> ((w = VNone \<and> allow_none f) \<or> has_type (ftyp f) w)
    \<and> map_of kw (fname f) \<noteq> Some VNotSet
    \<and> field_validate L (fld ''timeout'' (TOptional TFloat) (VInt 1)) (VStr ''30'')
        = Inr (VFloat (Finite 30))
    \<and> (distinct (map fst kw0) \<longrightarrow>
         map_of (drop_unset kw0) (fname f) =
           (case map_of kw0 (fname f) of
              Some v \<Rightarrow> if v = VNotSet then None else Some v
            | None \<Rightarrow> None))"
proof -
  from assms(1-3) obtain d where d: "fdefault f = Default d"
    using module_classes_scalar_default by blast
  from assms(1) have dist: "distinct (map fname (cfields c))"
    by (rule module_classes_distinct)
  from construct_field_value [OF assms(5) dist assms(2)] obtain v w where
    v: "(case map_of kw (fname f) of
           Some u \<Rightarrow> Inr u
         | None \<Rightarrow>
             (case env_vars env (env_name (cconfig c) (fname f)) of
                Some raw \<Rightarrow> Inr (VStr raw)
              | None \<Rightarrow> get_default env f)) = Inr v" and
    w: "field_validate L f v = Inr w" "getattr inst (fname f) = Some w"
    by blast
  from v d have veq: "v = (case map_of kw (fname f) of
           Some v \<Rightarrow> v
         | None \<Rightarrow>
             (case env_vars env (env_name (cconfig c) (fname f)) of
                Some raw \<Rightarrow> VStr raw
              | None \<Rightarrow> d))"
    by (auto simp: get_default_def split: option.splits)
  have typed: "(w = VNone \<and> allow_none f) \<or> has_type (ftyp f) w"
    using assms(4) w(1) by (rule field_validate_typed)
  have notset: "map_of kw (fname f) \<noteq> Some VNotSet"
  proof
    assume "map_of kw (fname f) = Some VNotSet"
    with veq have "v = VNotSet" by simp
    with w(1) have "validate_type L (ftyp f) VNotSet = Inr w"
      by (simp add: field_validate_def)
    with validate_type_NotSet [OF assms(3), of L] show False by auto
  qed
  have thirty: "field_validate L (fld ''timeout'' (TOptional TFloat) (VInt 1)) (VStr ''30'')
        = Inr (VFloat (Finite 30))"
    by (simp add: field_validate_def fld_def decimal_30)
  have drop: "distinct (map fst kw0) \<longrightarrow>
         map_of (drop_unset kw0) (fname f) =
           (case map_of kw0 (fname f) of
              Some v \<Rightarrow> if v = VNotSet then None else Some v
            | None \<Rightarrow> None)"
    by (simp add: map_of_drop_unset)
  from d w veq typed notset thirty drop show ?thesis by auto
qed

theorem resolution_order_witness:
  "DatabaseSettings_class ''/home/u'' \<in> set (module_classes no_builtins ''/root'' ''/home/u'')
   \<and> fld ''timeout'' (TOptional TFloat) (VInt 1) \<in> set (cfields (DatabaseSettings_class ''/home/u''))
   \<and> \<not> is_complex (TOptional TFloat)
   \<and> lib_typed no_builtins
   \<and> construct no_builtins (DatabaseSettings_class ''/home/u'')
        [(''PREFECT_ORION_DATABASE_TIMEOUT'', ''30''), (''PREFECT_ORION_DATABASE_ECHO'', ''0'')]
        [(''echo'', VBool True)]
      = Inr (VModel ''DatabaseSettings''
          [(''connection_url'', VSecret ''sqlite+aiosqlite://///home/u/orion.db''),
           (''echo'', VBool True), (''timeout'', VFloat (Finite 30)),
           (''services_timeout'', VNone)])
   \<and> has_type (TOptional TFloat) (VFloat (Finite 30))"
proof -
  let ?L = no_builtins
  let ?c = "DatabaseSettings_class ''/home/u''"
  let ?f = "fld ''timeout'' (TOptional TFloat) (VInt 1)"
  let ?env = "[(''PREFECT_ORION_DATABASE_TIMEOUT'', ''30''), (''PREFECT_ORION_DATABASE_ECHO'', ''0'')]"
  let ?kw = "[(''echo'', VBool True)]"
  let ?inst = "VModel ''DatabaseSettings''
          [(''connection_url'', VSecret ''sqlite+aiosqlite://///home/u/orion.db''),
           (''echo'', VBool True), (''timeout'', VFloat (Finite 30)),
           (''services_timeout'', VNone)]"
  have 1: "?c \<in> set (module_classes ?L ''/root'' ''/home/u'')"
    by (simp add: module_classes_def)
  have 2: "?f \<in> set (cfields ?c)"
    by (simp add: DatabaseSettings_class_def)
  have 3: "\<not> is_complex (ftyp ?f)"
    by (simp add: fld_def)
  have 5: "construct ?L ?c ?env ?kw = Inr ?inst"
    by (simp add: construct_defs class_defs lower_simps decimal_30)
  from resolution_order [OF 1 2 3 lib_typed_no_builtins 5] 1 2 5 lib_typed_no_builtins
  show ?thesis
    by (simp add: fld_def)
qed

section \<open>The root settings\<close>

text \<open>
  C10: the field \<^verbatim>\<open>orion_host\<close> of the root settings is declared with type
  \<^verbatim>\<open>str\<close> and default \<^verbatim>\<open>None\<close>; in a tree built without an override while
  \<^verbatim>\<open>PREFECT_ORION_HOST\<close> is unset, its value is \<^verbatim>\<open>None\<close>. This holds for the
  singleton \<^verbatim>\<open>settings\<close> of the loaded module and for every later
  \<^verbatim>\<open>Settings()\<close>.
\<close>

theorem orion_host_resolves_to_None:
  assumes "load_module L homedir env0 = Inr m"
    and "construct L (Settings m) env [] = Inr tree"
    and "env_vars env ''prefect_orion_host'' = None"
  shows "fld ''orion_host'' TStr VNone \<in> set (cfields (Settings m))
    \<and> env_name (cconfig (Settings m)) ''orion_host'' = ''prefect_orion_host''
    \<and> getattr tree ''orion_host'' = Some VNone
    \<and> (env_vars env0 ''prefect_orion_host'' = None \<longrightarrow>
         getattr (settings m) ''orion_host'' = Some VNone)"
proof -
  from assms(1) obtain home where
    S: "Settings m = Settings_of L homedir home" and
    s: "construct L (Settings_of L homedir home) env0 [] = Inr (settings m)"
    by (rule load_module_Inr)
  let ?c = "Settings_of L homedir home"
  let ?f = "fld ''orion_host'' TStr VNone"
  have mem: "?f \<in> set (cfields ?c)"
    by (simp add: class_defs)
  have dist: "distinct (map fname (cfields ?c))"
    by (rule module_classes_distinct [of _ L homedir home]) (simp add: module_classes_def)
  have name: "env_name (cconfig ?c) (fname ?f) = ''prefect_orion_host''"
    by (simp add: class_defs env_name_def lower_simps)
  have val: "field_validate L ?f VNone = Inr VNone"
    by (simp add: field_validate_def allow_none_def fld_def)
  have dflt: "\<And>e. get_default e ?f = Inr VNone"
    by (simp add: get_default_def fld_def)
  have *: "getattr t ''orion_host'' = Some VNone"
    if "construct L ?c e [] = Inr t" "env_vars e ''prefect_orion_host'' = None" for e t
  proof -
    from that(2) name have "env_vars e (env_name (cconfig ?c) (fname ?f)) = None" by simp
    from construct_nokw_field_value [OF that(1) dist mem this] dflt val
    show ?thesis by (simp add: fld_def)
  qed
  from assms(2) S have "construct L ?c env [] = Inr tree" by simp
  from * [OF this assms(3)] * [OF s] mem name S show ?thesis
    by (simp add: fld_def)
qed


lemma Path_home_u: "Path ''/home/u'' = ''/home/u''"
  by code_simp

lemma Path_home_u_logging: "Path (''/home/u'' @ ''/logging.yml'') = ''/home/u/logging.yml''"
  by code_simp

lemma construct_shared_home_u:
  "construct L (PrefectSettings_class h) [(''PREFECT_HOME'', ''/home/u'')] [] =
     Inr (VModel ''PrefectSettings''
       [(''home'', VPath ''/home/u''), (''debug_mode'', VBool False),
        (''test_mode'', VBool False)])"
  by (simp add: construct_defs class_defs lower_simps Path_home_u)

lemma construct_tree_home_u:
  "\<exists>t. construct L (Settings_of L h ''/home/u'') [(''PREFECT_HOME'', ''/home/u'')] [] = Inr t"
  by (simp add: construct_defs class_defs lower_simps Path_home_u Path_home_u_logging)

lemma load_module_home_u:
  "\<exists>m. load_module L ''/root'' [(''PREFECT_HOME'', ''/home/u'')] = Inr m"
proof -
  obtain t where
    "construct L (Settings_of L ''/root'' ''/home/u'') [(''PREFECT_HOME'', ''/home/u'')] [] = Inr t"
    using construct_tree_home_u by blast
  then show ?thesis
    by (simp add: load_module_def construct_shared_home_u format_home_def)
qed

theorem orion_host_resolves_to_None_witness:
  "\<not> isl (load_module no_builtins ''/root'' [(''PREFECT_HOME'', ''/home/u'')])
   \<and> env_vars [(''PREFECT_HOME'', ''/home/u'')] ''prefect_orion_host'' = None
   \<and> getattr (settings (projr (load_module no_builtins ''/root'' [(''PREFECT_HOME'', ''/home/u'')])))
        ''orion_host'' = Some VNone"
proof -
  let ?env = "[(''PREFECT_HOME'', ''/home/u'')]"
  obtain m where m: "load_module no_builtins ''/root'' ?env = Inr m"
    using load_module_home_u by blast
  then obtain home where
    S: "Settings m = Settings_of no_builtins ''/root'' home" and
    s: "construct no_builtins (Settings_of no_builtins ''/root'' home) ?env [] = Inr (settings m)"
    by (rule load_module_Inr)
  have e: "env_vars ?env ''prefect_orion_host'' = None"
    by (simp add: env_vars_def lower_simps)
  from s S have c: "construct no_builtins (Settings m) ?env [] = Inr (settings m)" by simp
  from orion_host_resolves_to_None [OF m c e] m e show ?thesis by simp
qed

section \<open>The environment prefix of the API settings\<close>

text \<open>
  C6 at \<^verbatim>\<open>APISettings\<close>: the class declares no \<^verbatim>\<open>Config\<close> with an
  \<^verbatim>\<open>env_prefix\<close>, as every other class of the module does, so its prefix is
  the empty string of \<^verbatim>\<open>BaseSettings\<close>: the field \<^verbatim>\<open>host\<close> is read from
  the variable \<^verbatim>\<open>HOST\<close>, and a variable with a prefix of the API group is not
  read.
\<close>

theorem APISettings_has_no_prefix:
  "env_prefix (cconfig APISettings_class) = []
   \<and> env_name (cconfig APISettings_class) ''host'' = ''host''
   \<and> construct L APISettings_class [(''HOST'', ''0.0.0.0'')] [] =
       Inr (VModel ''APISettings''
         [(''default_limit'', VInt 200), (''host'', VStr ''0.0.0.0''),
          (''port'', VInt 5000), (''uvicorn_log_level'', VStr ''info'')])
   \<and> construct L APISettings_class [(''PREFECT_ORION_API_HOST'', ''0.0.0.0'')] [] =
       Inr (VModel ''APISettings''
         [(''default_limit'', VInt 200), (''host'', VStr ''127.0.0.1''),
          (''port'', VInt 5000), (''uvicorn_log_level'', VStr ''info'')])"
  by (simp add: construct_defs class_defs lower_simps)

section \<open>Failing constructions\<close>





lemma validate_model_escapes:
  "f \<in> set fs \<Longrightarrow> field_input env input f = Inr v \<Longrightarrow> field_validate L f v = Inl k \<Longrightarrow>
   uncaught k = Some x \<Longrightarrow> \<exists>e'. validate_model L env input fs = Inl e'"
proof (induction fs)
  case Nil
  then show ?case by simp
next
  case (Cons a fs)
  show ?case
  proof (cases "f = a")
    case True
    with Cons.prems show ?thesis by simp
  next
    case False
    with Cons.prems have "f \<in> set fs" by auto
    from Cons.IH [OF this Cons.prems(2-4)] obtain e' where
      e': "validate_model L env input fs = Inl e'" by blast
    show ?thesis
    proof (cases "field_input env input a")
      case (Inl e'')
      then show ?thesis by simp
    next
      case (Inr u)
      show ?thesis
      proof (cases "field_validate L a u")
        case (Inl k')
        with Inr e' show ?thesis
          by (cases "uncaught k'") simp_all
      next
        case (Inr w)
        with \<open>field_input env input a = Inr u\<close> e' show ?thesis by simp
      qed
    qed
  qed
qed








lemma get_default_nested: "get_default env (nested L n c) = construct L c env []"
  by (simp add: get_default_def nested_def)


lemma cfields_OrionSettings_of:
  "cfields (OrionSettings_of L home) =
     [nested L ''database'' (DatabaseSettings_class home),
      nested L ''data'' DataLocationSettings_class,
      nested L ''api'' APISettings_class,
      nested L ''services'' ServicesSettings_class]"
  by (simp add: OrionSettings_of_def OrionSettings_class_def)

lemma cfields_Settings_of:
  "cfields (Settings_of L homedir home) =
     [fld ''home'' TPath (VPath (expanduser homedir ''~/.prefect'')),
      fld ''debug_mode'' TBool (VBool False),
      fld ''test_mode'' TBool (VBool False),
      nested L ''logging'' (LoggingSettings_class home),
      nested L ''orion'' (OrionSettings_of L home),
      fld ''orion_host'' TStr VNone]"
  by (simp add: Settings_of_def Settings_class_def PrefectSettings_class_def)

lemma scalar_classes:
  "\<forall>g\<in>set (cfields (PrefectSettings_class homedir)).
      \<not> is_complex (ftyp g) \<and> (\<exists>d. fdefault g = Default d)"
  "\<forall>g\<in>set (cfields DataLocationSettings_class).
      \<not> is_complex (ftyp g) \<and> (\<exists>d. fdefault g = Default d)"
  "\<forall>g\<in>set (cfields (DatabaseSettings_class home)).
      \<not> is_complex (ftyp g) \<and> (\<exists>d. fdefault g = Default d)"
  "\<forall>g\<in>set (cfields APISettings_class).
      \<not> is_complex (ftyp g) \<and> (\<exists>d. fdefault g = Default d)"
  "\<forall>g\<in>set (cfields ServicesSettings_class).
      \<not> is_complex (ftyp g) \<and> (\<exists>d. fdefault g = Default d)"
  "\<forall>g\<in>set (cfields (LoggingSettings_class home)).
      \<not> is_complex (ftyp g) \<and> (\<exists>d. fdefault g = Default d)"
  by (simp_all add: PrefectSettings_class_def DataLocationSettings_class_def
      DatabaseSettings_class_def APISettings_class_def ServicesSettings_class_def
      LoggingSettings_class_def fld_def)





lemma ftyp_nested: "is_complex (ftyp (nested L n c))"
  by (simp add: nested_def)

lemma fname_nested: "fname (nested L n c) = n"
  by (simp add: nested_def)











section \<open>Nested settings\<close>

lemma complex_field_nested:
  assumes "c \<in> set (module_classes L homedir home)"
    and "f \<in> set (cfields c)"
    and "is_complex (ftyp f)"
  shows "\<exists>c'\<in>set (module_classes L homedir home). f = nested L (fname f) c'"
proof -
  from assms(1) have "c = PrefectSettings_class homedir \<or> c = DataLocationSettings_class
      \<or> c = DatabaseSettings_class home \<or> c = APISettings_class
      \<or> c = ServicesSettings_class \<or> c = OrionSettings_of L home
      \<or> c = LoggingSettings_class home \<or> c = Settings_of L homedir home"
    by (simp add: module_classes_def)
  then consider (scalar) "\<forall>g\<in>set (cfields c). \<not> is_complex (ftyp g) \<and> (\<exists>d. fdefault g = Default d)"
    | (orion) "c = OrionSettings_of L home"
    | (root) "c = Settings_of L homedir home"
    using scalar_classes(1) [of homedir] scalar_classes(2) scalar_classes(3) [of home]
      scalar_classes(4) scalar_classes(5) scalar_classes(6) [of home] by blast
  then show ?thesis
  proof cases
    case scalar
    with assms(2,3) show ?thesis by blast
  next
    case orion
    with assms(2) have "f = nested L ''database'' (DatabaseSettings_class home)
        \<or> f = nested L ''data'' DataLocationSettings_class
        \<or> f = nested L ''api'' APISettings_class
        \<or> f = nested L ''services'' ServicesSettings_class"
      by (simp add: cfields_OrionSettings_of)
    then show ?thesis
      by (elim disjE) (simp_all add: fname_nested module_classes_def)
  next
    case root
    with assms(2) have "f = fld ''home'' TPath (VPath (expanduser homedir ''~/.prefect''))
        \<or> f = fld ''debug_mode'' TBool (VBool False)
        \<or> f = fld ''test_mode'' TBool (VBool False)
        \<or> f = nested L ''logging'' (LoggingSettings_class home)
        \<or> f = nested L ''orion'' (OrionSettings_of L home)
        \<or> f = fld ''orion_host'' TStr VNone"
      by (simp add: cfields_Settings_of)
    with assms(3) have "f = nested L ''logging'' (LoggingSettings_class home)
        \<or> f = nested L ''orion'' (OrionSettings_of L home)"
      by (elim disjE) (simp_all add: fld_def)
    then show ?thesis
      by (elim disjE) (simp_all add: fname_nested module_classes_def)
  qed
qed

lemma field_validate_nested:
  assumes "construct L c env kw = Inr v"
  shows "field_validate L (nested L n c) v = Inr v"
proof -
  from assms obtain vals where "v = VModel (cname c) vals"
    by (rule construct_Inr)
  then show ?thesis
    by (simp add: field_validate_def nested_def)
qed

lemma nested_field_value:
  assumes "c \<in> set (module_classes L homedir home)"
    and "nested L n c' \<in> set (cfields c)"
    and "construct L c env [] = Inr p"
  shows "\<exists>d. construct L c' env [] = Inr d \<and> getattr p n = Some d"
proof -
  let ?f = "nested L n c'"
  from assms(1) have dist: "distinct (map fname (cfields c))"
    by (rule module_classes_distinct)
  from assms(3) obtain envd where
    "env_settings (cconfig c) env (cfields c) = Inr envd"
    by (rule construct_Inr)
  then have "env_vars env (env_name (cconfig c) (fname ?f)) = None"
    using assms(2) ftyp_nested by (rule env_settings_Inr_complex)
  from construct_nokw_field_value [OF assms(3) dist assms(2) this] obtain v w where
    v: "get_default env ?f = Inr v" and
    w: "field_validate L ?f v = Inr w" "getattr p (fname ?f) = Some w"
    by blast
  from v have c': "construct L c' env [] = Inr v"
    by (simp add: get_default_nested)
  from field_validate_nested [OF c'] w(1) have "w = v" by simp
  with c' w(2) show ?thesis
    by (simp add: fname_nested)
qed

text \<open>
  C3: a nested field of a class of the module holds a default factory, which is the
  nested class itself, called without arguments. Each construction of the parent calls
  it with the environment of that construction, and the parent stores what this call
  returns: two constructions under two environments hold the nested instances resolved
  under the first and under the second environment.
\<close>

theorem nested_factory_per_construction:
  assumes "c \<in> set (module_classes L homedir home)"
    and "f \<in> set (cfields c)"
    and "is_complex (ftyp f)"
    and "construct L c env1 [] = Inr p1"
    and "construct L c env2 [] = Inr p2"
  shows "\<exists>c' d1 d2. c' \<in> set (module_classes L homedir home)
    \<and> fdefault f = DefaultFactory (\<lambda>env. construct L c' env [])
    \<and> get_default env1 f = Inr d1 \<and> construct L c' env1 [] = Inr d1
    \<and> getattr p1 (fname f) = Some d1
    \<and> get_default env2 f = Inr d2 \<and> construct L c' env2 [] = Inr d2
    \<and> getattr p2 (fname f) = Some d2"
proof -
  from complex_field_nested [OF assms(1-3)] obtain c' where
    c': "c' \<in> set (module_classes L homedir home)" and f: "f = nested L (fname f) c'"
    by blast
  from f assms(2) have mem: "nested L (fname f) c' \<in> set (cfields c)" by simp
  from nested_field_value [OF assms(1) mem assms(4)] obtain d1 where
    d1: "construct L c' env1 [] = Inr d1" "getattr p1 (fname f) = Some d1" by blast
  from nested_field_value [OF assms(1) mem assms(5)] obtain d2 where
    d2: "construct L c' env2 [] = Inr d2" "getattr p2 (fname f) = Some d2" by blast
  have fac: "fdefault f = DefaultFactory (\<lambda>env. construct L c' env [])"
    by (subst f) (simp add: nested_def)
  have gd: "\<And>env. get_default env f = construct L c' env []"
    by (subst f) (simp add: get_default_nested)
  from c' fac gd d1 d2 show ?thesis by auto
qed

lemma construct_database_home_u:
  "construct L (DatabaseSettings_class ''/home/u'') [] [] =
     Inr (VModel ''DatabaseSettings''
       [(''connection_url'', VSecret ''sqlite+aiosqlite://///home/u/orion.db''),
        (''echo'', VBool False), (''timeout'', VFloat (Finite 1)),
        (''services_timeout'', VNone)])"
  "construct L (DatabaseSettings_class ''/home/u'') [(''PREFECT_ORION_DATABASE_ECHO'', ''true'')] [] =
     Inr (VModel ''DatabaseSettings''
       [(''connection_url'', VSecret ''sqlite+aiosqlite://///home/u/orion.db''),
        (''echo'', VBool True), (''timeout'', VFloat (Finite 1)),
        (''services_timeout'', VNone)])"
  "construct L (DatabaseSettings_class ''/home/u'') [(''PREFECT_HOME'', ''/home/v'')] [] =
     Inr (VModel ''DatabaseSettings''
       [(''connection_url'', VSecret ''sqlite+aiosqlite://///home/u/orion.db''),
        (''echo'', VBool False), (''timeout'', VFloat (Finite 1)),
        (''services_timeout'', VNone)])"
  by (simp_all add: construct_defs class_defs lower_simps BOOL_TRUE_def BOOL_FALSE_def)

lemma construct_orion_home_u:
  "\<exists>p. construct L (OrionSettings_of L ''/home/u'') [] [] = Inr p"
  "\<exists>p. construct L (OrionSettings_of L ''/home/u'')
      [(''PREFECT_ORION_DATABASE_ECHO'', ''true'')] [] = Inr p"
  by (simp_all add: construct_defs class_defs lower_simps BOOL_TRUE_def BOOL_FALSE_def)

theorem nested_factory_per_construction_witness:
  "\<exists>p1 p2 d1 d2.
     construct no_builtins (OrionSettings_of no_builtins ''/home/u'') [] [] = Inr p1
   \<and> construct no_builtins (OrionSettings_of no_builtins ''/home/u'')
        [(''PREFECT_ORION_DATABASE_ECHO'', ''true'')] [] = Inr p2
   \<and> getattr p1 ''database'' = Some d1 \<and> getattr p2 ''database'' = Some d2
   \<and> getattr d1 ''echo'' = Some (VBool False) \<and> getattr d2 ''echo'' = Some (VBool True)"
proof -
  let ?L = no_builtins
  let ?c = "OrionSettings_of ?L ''/home/u''"
  let ?f = "nested ?L ''database'' (DatabaseSettings_class ''/home/u'')"
  let ?env2 = "[(''PREFECT_ORION_DATABASE_ECHO'', ''true'')]"
  obtain p1 where p1: "construct ?L ?c [] [] = Inr p1"
    using construct_orion_home_u(1) by blast
  obtain p2 where p2: "construct ?L ?c ?env2 [] = Inr p2"
    using construct_orion_home_u(2) by blast
  have 1: "?c \<in> set (module_classes ?L ''/root'' ''/home/u'')"
    by (simp add: module_classes_def)
  have 2: "?f \<in> set (cfields ?c)"
    by (simp add: cfields_OrionSettings_of)
  have 3: "is_complex (ftyp ?f)"
    by (rule ftyp_nested)
  from nested_factory_per_construction [OF 1 2 3 p1 p2] obtain d1 d2 where
    d1: "get_default [] ?f = Inr d1" "getattr p1 (fname ?f) = Some d1" and
    d2: "get_default ?env2 ?f = Inr d2" "getattr p2 (fname ?f) = Some d2"
    by blast
  from d1(1) d2(1) have "getattr d1 ''echo'' = Some (VBool False)"
    "getattr d2 ''echo'' = Some (VBool True)"
    by (auto simp: get_default_nested construct_database_home_u)
  with p1 p2 d1(2) d2(2) show ?thesis
    by (simp add: fname_nested)
qed

section \<open>Path-typed fields\<close>

lemma split_slash_tilde: "split_slash (CHR ''~'' # CHR ''/'' # s) = ''~'' # split_slash s"
  by simp

lemma Path_keeps_tilde: "take 2 (Path (CHR ''~'' # CHR ''/'' # s) @ ''/'') = ''~/''"
proof -
  let ?ps = "path_parts s"
  have parts: "path_parts (CHR ''~'' # CHR ''/'' # s) = ''~'' # ?ps"
    by (simp add: path_parts_def)
  have root: "path_root (CHR ''~'' # CHR ''/'' # s) = []"
    by (simp add: path_root_def)
  have "Path (CHR ''~'' # CHR ''/'' # s) = join_slash (''~'' # ?ps)"
    by (simp add: Path_def render_path_def parts root)
  then show ?thesis
    by (cases ?ps) simp_all
qed

lemma expanduser_prefect:
  "expanduser homedir ''~/.prefect'' =
     render_path (path_root homedir) (path_parts homedir @ [''.prefect''])"
  by (simp add: expanduser_def path_root_def path_parts_def)

lemma expanduser_data: "expanduser ''/root'' ''~/data'' = ''/root/data''"
  by code_simp

lemma expanduser_slash: "expanduser ''/'' ''~/.prefect'' = ''/.prefect''"
  by code_simp

lemma expanduser_root: "expanduser ''/root'' ''~/.prefect'' = ''/root/.prefect''"
  by code_simp

lemma Path_tilde_data: "Path ''~/data'' = ''~/data''"
  by code_simp

text \<open>
  C8, as stated, fails: with \<^verbatim>\<open>PREFECT_HOME=~/data\<close>, for a user whose home
  directory is \<^verbatim>\<open>/root\<close>, the field \<^verbatim>\<open>home\<close> is the path \<^verbatim>\<open>~/data\<close>,
  not its expansion \<^verbatim>\<open>/root/data\<close>.
\<close>

theorem path_from_environment_counterexample:
  "construct no_builtins (PrefectSettings_class ''/root'') [(''PREFECT_HOME'', ''~/data'')] [] =
     Inr (VModel ''PrefectSettings''
       [(''home'', VPath ''~/data''), (''debug_mode'', VBool False),
        (''test_mode'', VBool False)])
   \<and> expanduser ''/root'' ''~/data'' = ''/root/data''
   \<and> VPath ''~/data'' \<noteq> VPath (expanduser ''/root'' ''~/data'')"
  by (simp add: construct_defs class_defs lower_simps expanduser_data Path_tilde_data)

text \<open>
  C8, amended: a path-typed field of a class of the module holds \<^verbatim>\<open>Path(raw)\<close>
  when its environment variable is set to \<open>raw\<close>, and its declared default otherwise.
  \<^verbatim>\<open>Path\<close> does not expand: a leading \<open>~/\<close> of \<open>raw\<close> is still there. The only
  expansion is the call of \<^verbatim>\<open>expanduser()\<close> in the declared default of
  \<^verbatim>\<open>home\<close>, which puts the root and the components of the user's home directory
  in front of \<^verbatim>\<open>.prefect\<close> (the class body runs only when that directory is
  known); the default of \<^verbatim>\<open>settings_path\<close> is built from the string of
  \<^verbatim>\<open>SharedSettings.home\<close> without an expansion.
\<close>

theorem path_field_resolution:
  assumes "c \<in> set (module_classes L homedir home)"
    and "take 1 homedir \<noteq> ''~''"
    and "f \<in> set (cfields c)"
    and "ftyp f = TPath"
    and "construct L c env [] = Inr inst"
  shows "\<exists>d. fdefault f = Default (VPath d)
    \<and> getattr inst (fname f) =
        Some (VPath (case env_vars env (env_name (cconfig c) (fname f)) of
                       Some raw \<Rightarrow> Path raw
                     | None \<Rightarrow> d))
    \<and> (if fname f = ''home''
        then d = render_path (path_root homedir) (path_parts homedir @ [''.prefect''])
        else d = Path (home @ ''/logging.yml''))
    \<and> take 2 (Path (CHR ''~'' # CHR ''/'' # s) @ ''/'') = ''~/''"
proof -
  from assms(1) have dist: "distinct (map fname (cfields c))"
    by (rule module_classes_distinct)
  from assms(1,3,4) obtain d where d: "fdefault f = Default (VPath d)"
    and dd: "if fname f = ''home'' then d = expanduser homedir ''~/.prefect''
        else d = Path (home @ ''/logging.yml'')"
    by (auto simp: module_classes_def class_defs)
  from construct_field_value [OF assms(5) dist assms(3)] obtain v w where
    v: "(case env_vars env (env_name (cconfig c) (fname f)) of
            Some raw \<Rightarrow> Inr (VStr raw)
          | None \<Rightarrow> get_default env f) = Inr v" and
    w: "field_validate L f v = Inr w" "getattr inst (fname f) = Some w"
    by auto
  have "w = VPath (case env_vars env (env_name (cconfig c) (fname f)) of
                       Some raw \<Rightarrow> Path raw
                     | None \<Rightarrow> d)"
    using v w(1) d assms(4)
    by (auto simp: get_default_def field_validate_def split: option.splits)
  with d dd w(2) Path_keeps_tilde show ?thesis
    by (auto simp: expanduser_prefect)
qed

theorem path_field_resolution_witness:
  "PrefectSettings_class ''/root'' \<in> set (module_classes no_builtins ''/root'' ''/home/u'')
   \<and> take 1 ''/root'' \<noteq> ''~''
   \<and> fld ''home'' TPath (VPath (expanduser ''/root'' ''~/.prefect''))
       \<in> set (cfields (PrefectSettings_class ''/root''))
   \<and> construct no_builtins (PrefectSettings_class ''/root'') [(''PREFECT_HOME'', ''~/data'')] []
       = Inr (VModel ''PrefectSettings''
           [(''home'', VPath ''~/data''), (''debug_mode'', VBool False),
            (''test_mode'', VBool False)])
   \<and> Path ''~/data'' = ''~/data''
   \<and> expanduser ''/root'' ''~/.prefect'' = ''/root/.prefect''
   \<and> expanduser ''/'' ''~/.prefect'' = ''/.prefect''"
proof -
  let ?c = "PrefectSettings_class ''/root''"
  let ?f = "fld ''home'' TPath (VPath (expanduser ''/root'' ''~/.prefect''))"
  let ?env = "[(''PREFECT_HOME'', ''~/data'')]"
  let ?inst = "VModel ''PrefectSettings''
         [(''home'', VPath ''~/data''), (''debug_mode'', VBool False),
          (''test_mode'', VBool False)]"
  have 1: "?c \<in> set (module_classes no_builtins ''/root'' ''/home/u'')"
    by (simp add: module_classes_def)
  have 2: "take 1 ''/root'' \<noteq> ''~''"
    by simp
  have 3: "?f \<in> set (cfields ?c)"
    by (simp add: PrefectSettings_class_def)
  have 4: "ftyp ?f = TPath"
    by (simp add: fld_def)
  have 5: "construct no_builtins ?c ?env [] = Inr ?inst"
    by (simp add: construct_defs class_defs lower_simps Path_tilde_data)
  from path_field_resolution [OF 1 2 3 4 5] 1 2 3 5 show ?thesis
    by (simp add: Path_tilde_data expanduser_root expanduser_slash)
qed

section \<open>Defaults derived from the shared settings\<close>












end
